theory Spec2Isabelle
  imports Main
begin

section \<open>The tree model of treeview.py\<close>

text \<open>
  \<^verbatim>\<open>TreeNode = namedtuple('TreeNode', ['name', 'image', 'children'], defaults=[None, []])\<close>

  A node carries a name, an optional image path (\<^verbatim>\<open>None\<close> by default) and the ordered
  list of its children. The field \<^verbatim>\<open>image\<close> is called \<open>image_id\<close> here, since
  \<open>image\<close> is the image of a set under a function in HOL.
\<close>

datatype TreeNode =
  TreeNode (name: string) (image_id: "string option") (children: "TreeNode list")

text \<open>
  \<^verbatim>\<open>if node.image:\<close> is Python truthiness: \<^verbatim>\<open>None\<close> and the empty string are both
  false. \<open>truthy_image\<close> yields the path exactly when the test succeeds.
\<close>

fun truthy_image :: "string option \<Rightarrow> string option" where
  "truthy_image None = None"
| "truthy_image (Some s) = (if s = [] then None else Some s)"

section \<open>Errors\<close>

text \<open>
  Every exception the source raises is a \<^verbatim>\<open>ValueError\<close> whose message is built from
  the string of the exception it caught. The message is kept structured, one constructor
  per raise site:
  \<^item> \<open>Failed_to_load i c\<close> is \<^verbatim>\<open>f"Failed to load image: {node.image}. {str(e)}"\<close>,
    with \<open>i\<close> the image path and \<open>c\<close> the exception caught;
  \<^item> \<open>Error_drawing m\<close> is \<^verbatim>\<open>f"Error drawing tree: {str(e)}"\<close>;
  \<^item> \<open>Error_displaying m\<close> is \<^verbatim>\<open>f"Error displaying tree: {str(e)}"\<close>.
  The exception caught at an image is either the one the image library raised
  (\<open>Decode_failure\<close>, with its text) or the \<^verbatim>\<open>KeyError\<close> of a lookup in
  \<^verbatim>\<open>preloaded_images\<close>. Integer division by zero raises \<^verbatim>\<open>ZeroDivisionError\<close>.
\<close>

datatype cause = Decode_failure string | KeyError string

datatype message =
  Failed_to_load string cause
| Error_drawing message
| Error_displaying message

datatype error = ValueError message | ZeroDivisionError

section \<open>Size of the tree\<close>

text \<open>
  Python's \<^verbatim>\<open>max\<close> over a non-empty sequence, given as its first element and the rest:
  it walks the sequence and keeps the largest value seen.
\<close>

definition py_max :: "int \<Rightarrow> int list \<Rightarrow> int" where
  "py_max x xs = fold max xs x"

text \<open>
  \<^verbatim>\<open>
  def calculate_tree_size(self, node):
      if not node.children:
          return 1, 1
      child_sizes = [self.calculate_tree_size(child) for child in node.children]
      max_child_width = max(size[0] for size in child_sizes)
      total_height = sum(size[1] for size in child_sizes)
      return max(max_child_width, len(node.children)), total_height + 1
  \<close>
  The first equation is the branch \<^verbatim>\<open>not node.children\<close> (an empty list is false).
  The recursion is that of the source; the interpreter's limit on the depth of recursion
  is not part of the model, here and in the other recursive methods.
\<close>

fun calculate_tree_size :: "TreeNode \<Rightarrow> int \<times> int" where
  "calculate_tree_size (TreeNode n i []) = (1, 1)"
| "calculate_tree_size (TreeNode n i (c # cs)) =
     (let child_sizes = map calculate_tree_size (c # cs);
          max_child_width = py_max (fst (hd child_sizes)) (map fst (tl child_sizes));
          total_height = sum_list (map snd child_sizes)
      in (max max_child_width (int (length (c # cs))), total_height + 1))"

text \<open>The nodes of a tree, the node itself first (pre-order), and their number.\<close>

fun nodes :: "TreeNode \<Rightarrow> TreeNode list" where
  "nodes (TreeNode n i cs) = TreeNode n i cs # concat (map nodes cs)"

fun count_nodes :: "TreeNode \<Rightarrow> nat" where
  "count_nodes (TreeNode n i cs) = Suc (sum_list (map count_nodes cs))"

text \<open>
  A chain of depth \<open>d\<close>: \<open>d\<close> nodes, each but the last with exactly one child.
\<close>

fun is_chain :: "nat \<Rightarrow> TreeNode \<Rightarrow> bool" where
  "is_chain 0 t = False"
| "is_chain (Suc d) (TreeNode n i cs) =
     (case cs of
        [] \<Rightarrow> d = 0
      | [c] \<Rightarrow> is_chain d c
      | _ \<Rightarrow> False)"

fun chain :: "nat \<Rightarrow> TreeNode" where
  "chain 0 = TreeNode ''n'' None []"
| "chain (Suc d) = TreeNode ''n'' None [chain d]"

section \<open>Example trees\<close>

text \<open>The tree that the module builds when it is run as a program.\<close>

definition example_tree :: TreeNode where
  "example_tree =
     TreeNode [] (Some ''test.png'')
       [TreeNode ''Hello'' None [TreeNode ''World'' None []],
        TreeNode ''Not'' None [TreeNode ''goodbye'' None [TreeNode ''world'' None []]]]"

text \<open>A root with the two leaves "Hello" and "World".\<close>

definition hello_world_tree :: TreeNode where
  "hello_world_tree = TreeNode ''root'' None [TreeNode ''Hello'' None [], TreeNode ''World'' None []]"

text \<open>A root with 801 leaves: one more than the canvas of 800 is wide.\<close>

definition wide_tree :: TreeNode where
  "wide_tree = TreeNode ''root'' None (replicate 801 (TreeNode ''leaf'' None []))"

section \<open>Node spacing\<close>

text \<open>
  \<^verbatim>\<open>
  def calculate_node_spacing(self):
      x_spacing = self.canvas_width // self.tree_size[0]
      y_spacing = self.canvas_height // self.tree_size[1]
      return x_spacing, y_spacing
  \<close>
  The method reads \<^verbatim>\<open>canvas_width\<close>, \<^verbatim>\<open>canvas_height\<close> and \<^verbatim>\<open>tree_size\<close> of the
  object; they are its arguments here. \<^verbatim>\<open>//\<close> is floor division, as \<open>div\<close> on
  \<open>int\<close> is, and raises \<^verbatim>\<open>ZeroDivisionError\<close> on a zero divisor.
\<close>

definition py_floordiv :: "int \<Rightarrow> int \<Rightarrow> error + int" where
  "py_floordiv a b = (if b = 0 then Inl ZeroDivisionError else Inr (a div b))"

definition calculate_node_spacing :: "int \<Rightarrow> int \<Rightarrow> int \<times> int \<Rightarrow> error + int \<times> int" where
  "calculate_node_spacing canvas_width canvas_height tree_size =
     (case py_floordiv canvas_width (fst tree_size) of
        Inl e \<Rightarrow> Inl e
      | Inr x_spacing \<Rightarrow>
          (case py_floordiv canvas_height (snd tree_size) of
             Inl e \<Rightarrow> Inl e
           | Inr y_spacing \<Rightarrow> Inr (x_spacing, y_spacing)))"

section \<open>Preloading the images\<close>

text \<open>
  \<^verbatim>\<open>
  def preload_images(self, node):
      if node.image:
          try:
              image = Image.open(node.image)
              image = image.resize((80, 60), Image.LANCZOS)
              self.preloaded_images[node.image] = ImageTk.PhotoImage(image)
          except Exception as e:
              raise ValueError(f"Failed to load image: {node.image}. {str(e)}")
      for child in node.children:
          self.preload_images(child)
  \<close>
  Opening, resizing and wrapping an image is the work of the image library: it is the
  parameter \<open>decode\<close>, which yields the handle of the image or the text of the exception
  raised. The dictionary \<^verbatim>\<open>preloaded_images\<close> is a map that the function takes and
  returns; the map comes back as it stood when the exception was raised.
  \<open>preload_children\<close> is the \<^verbatim>\<open>for\<close> loop: an exception in a child ends it.
\<close>

fun preload_images ::
    "(string \<Rightarrow> string + 'h) \<Rightarrow> TreeNode \<Rightarrow> (string \<rightharpoonup> 'h) \<Rightarrow> (error + unit) \<times> (string \<rightharpoonup> 'h)"
  and preload_children ::
    "(string \<Rightarrow> string + 'h) \<Rightarrow> TreeNode list \<Rightarrow> (string \<rightharpoonup> 'h) \<Rightarrow> (error + unit) \<times> (string \<rightharpoonup> 'h)"
where
  "preload_images decode (TreeNode n i cs) preloaded =
     (case truthy_image i of
        Some s \<Rightarrow>
          (case decode s of
             Inl e \<Rightarrow> (Inl (ValueError (Failed_to_load s (Decode_failure e))), preloaded)
           | Inr h \<Rightarrow> preload_children decode cs (preloaded(s \<mapsto> h)))
      | None \<Rightarrow> preload_children decode cs preloaded)"
| "preload_children decode [] preloaded = (Inr (), preloaded)"
| "preload_children decode (c # cs) preloaded =
     (case preload_images decode c preloaded of
        (Inl e, preloaded') \<Rightarrow> (Inl e, preloaded')
      | (Inr u, preloaded') \<Rightarrow> preload_children decode cs preloaded')"

section \<open>The graph object\<close>

text \<open>
  What the canvas holds: one item per \<^verbatim>\<open>create_...\<close> call, in the order of the calls.
  \<^item> \<open>create_window x y\<close>: \<^verbatim>\<open>create_window((x, y), window=self.inner_frame, anchor=tk.NW)\<close>;
  \<^item> \<open>create_image x y h\<close>: \<^verbatim>\<open>create_image(x, y, image=h)\<close>;
  \<^item> \<open>create_rectangle x1 y1 x2 y2\<close>: the call with \<^verbatim>\<open>fill='lightblue'\<close>;
  \<^item> \<open>create_text x y s\<close>: \<^verbatim>\<open>create_text(x, y, text=s, fill='black')\<close>;
  \<^item> \<open>create_line x1 y1 x2 y2\<close>: the call with \<^verbatim>\<open>arrow='last'\<close>.
\<close>

datatype 'h canvas_item =
  create_window int int
| create_image int int 'h
| create_rectangle int int int int
| create_text int int string
| create_line int int int int

text \<open>
  The fields of a \<^verbatim>\<open>TreeGraph\<close> that the layout reads or writes. The frames and the
  scrollbars are widgets of the host and are left out; \<open>scrollregion\<close> is the scroll
  region configured on the canvas (\<open>None\<close> for the bounding box of an empty canvas).
\<close>

record 'h TreeGraph =
  data :: TreeNode
  tree_size :: "int \<times> int"
  canvas_width :: int
  canvas_height :: int
  x_spacing :: int
  y_spacing :: int
  canvas :: "'h canvas_item list"
  scrollregion :: "(int \<times> int \<times> int \<times> int) option"
  preloaded_images :: "string \<rightharpoonup> 'h"

text \<open>
  \<^verbatim>\<open>__init__\<close>: the size of the tree, the canvas of 800 by 600, the spacing, the
  widgets, and last the preloading. An exception leaves the caller without an object.
\<close>

definition TreeGraph_init :: "(string \<Rightarrow> string + 'h) \<Rightarrow> TreeNode \<Rightarrow> error + 'h TreeGraph" where
  "TreeGraph_init decode root =
     (let ts = calculate_tree_size root
      in case calculate_node_spacing 800 600 ts of
           Inl e \<Rightarrow> Inl e
         | Inr (xs, ys) \<Rightarrow>
             (case preload_images decode root Map.empty of
                (Inl e, preloaded) \<Rightarrow> Inl e
              | (Inr u, preloaded) \<Rightarrow>
                  Inr \<lparr>data = root, tree_size = ts, canvas_width = 800, canvas_height = 600,
                       x_spacing = xs, y_spacing = ys, canvas = [create_window 0 0],
                       scrollregion = None, preloaded_images = preloaded\<rparr>))"

section \<open>Drawing the tree\<close>

definition node_width :: int where
  "node_width = 80"

definition node_height :: int where
  "node_height = 60"

text \<open>
  \<^verbatim>\<open>except ValueError as e: raise ValueError(f"Error drawing tree: {str(e)}")\<close>, and the
  same with \<^verbatim>\<open>"Error displaying tree: "\<close>: only a \<^verbatim>\<open>ValueError\<close> is caught.
\<close>

fun error_drawing :: "error \<Rightarrow> error" where
  "error_drawing (ValueError m) = ValueError (Error_drawing m)"
| "error_drawing e = e"

fun error_displaying :: "error \<Rightarrow> error" where
  "error_displaying (ValueError m) = ValueError (Error_displaying m)"
| "error_displaying e = e"

text \<open>
  \<^verbatim>\<open>
  def draw_tree(self, node, x, y):
      node_width = 80
      node_height = 60
      if node.image:
          try:
              image = self.preloaded_images[node.image]
              self.canvas.create_image(x, y, image=image)
          except Exception as e:
              raise ValueError(f"Failed to load image: {node.image}. {str(e)}")
      else:
          self.canvas.create_rectangle(x - node_width // 2, y - node_height // 2,
                                       x + node_width // 2, y + node_height // 2, fill='lightblue')
      self.canvas.create_text(x, y, text=node.name, fill='black')
      if node.children:
          num_children = len(node.children)
          total_width = num_children * self.x_spacing
          start_x = x - total_width // 2
          for child in node.children:
              try:
                  self.canvas.create_line(x, y + node_height // 2, start_x + self.x_spacing // 2,
                                          y + self.y_spacing - node_height // 2, arrow='last')
                  child_width = self.draw_tree(child, start_x + self.x_spacing // 2, y + self.y_spacing)
                  start_x += child_width
              except ValueError as e:
                  raise ValueError(f"Error drawing tree: {str(e)}")
          return total_width
      else:
          return node_width
  \<close>
  The object \<open>g\<close> is read for its spacing and its preloaded images; the items of the
  canvas are the state, taken and returned, also when an exception is raised (what was
  drawn stays on the canvas). \<open>draw_children\<close> is the \<^verbatim>\<open>for\<close> loop, with \<open>start_x\<close> its
  running variable.
\<close>

fun draw_tree ::
    "'h TreeGraph \<Rightarrow> TreeNode \<Rightarrow> int \<Rightarrow> int \<Rightarrow> 'h canvas_item list \<Rightarrow>
      (error + int) \<times> 'h canvas_item list"
  and draw_children ::
    "'h TreeGraph \<Rightarrow> TreeNode list \<Rightarrow> int \<Rightarrow> int \<Rightarrow> int \<Rightarrow> 'h canvas_item list \<Rightarrow>
      (error + unit) \<times> 'h canvas_item list"
where
  "draw_tree g (TreeNode n i cs) x y cv =
     (case
        (case truthy_image i of
           Some s \<Rightarrow>
             (case preloaded_images g s of
                None \<Rightarrow> Inl (ValueError (Failed_to_load s (KeyError s)))
              | Some h \<Rightarrow> Inr (cv @ [create_image x y h]))
         | None \<Rightarrow>
             Inr (cv @ [create_rectangle (x - node_width div 2) (y - node_height div 2)
                          (x + node_width div 2) (y + node_height div 2)]))
      of
        Inl e \<Rightarrow> (Inl e, cv)
      | Inr cv1 \<Rightarrow>
          (let cv2 = cv1 @ [create_text x y n]
           in if cs \<noteq> [] then
                (let num_children = int (length cs);
                     total_width = num_children * x_spacing g;
                     start_x = x - total_width div 2
                 in case draw_children g cs x y start_x cv2 of
                      (Inl e, cv3) \<Rightarrow> (Inl e, cv3)
                    | (Inr u, cv3) \<Rightarrow> (Inr total_width, cv3))
              else (Inr node_width, cv2)))"
| "draw_children g [] x y start_x cv = (Inr (), cv)"
| "draw_children g (c # cs) x y start_x cv =
     (let cv1 = cv @ [create_line x (y + node_height div 2) (start_x + x_spacing g div 2)
                        (y + y_spacing g - node_height div 2)]
      in case draw_tree g c (start_x + x_spacing g div 2) (y + y_spacing g) cv1 of
           (Inl e, cv2) \<Rightarrow> (Inl (error_drawing e), cv2)
         | (Inr child_width, cv2) \<Rightarrow> draw_children g cs x y (start_x + child_width) cv2)"

text \<open>
  \<^verbatim>\<open>
  def display_tree(self):
      try:
          root_width = self.draw_tree(self.data, self.canvas_width // 2, 30)
          self.canvas.configure(scrollregion=(-root_width // 2, -30, root_width // 2, self.canvas_height))
      except ValueError as e:
          raise ValueError(f"Error displaying tree: {str(e)}")
  \<close>
  \<^verbatim>\<open>-root_width // 2\<close> is \<^verbatim>\<open>(-root_width) // 2\<close>.
\<close>

definition display_tree :: "'h TreeGraph \<Rightarrow> (error + unit) \<times> 'h TreeGraph" where
  "display_tree g =
     (case draw_tree g (data g) (canvas_width g div 2) 30 (canvas g) of
        (Inl e, cv) \<Rightarrow> (Inl (error_displaying e), g\<lparr>canvas := cv\<rparr>)
      | (Inr root_width, cv) \<Rightarrow>
          (Inr (), g\<lparr>canvas := cv,
                     scrollregion := Some ((- root_width) div 2, - 30, root_width div 2, canvas_height g)\<rparr>))"

text \<open>
  The graph object that \<^verbatim>\<open>TreeGraph(hello_world_tree, parent)\<close> builds: footprint (2, 3),
  hence a spacing of 400 by 200 on the canvas of 800 by 600; no image is preloaded.
\<close>

definition hello_world_graph :: "unit TreeGraph" where
  "hello_world_graph =
     \<lparr>data = hello_world_tree, tree_size = (2, 3), canvas_width = 800, canvas_height = 600,
      x_spacing = 400, y_spacing = 200, canvas = [create_window 0 0],
      scrollregion = None, preloaded_images = Map.empty\<rparr>"

section \<open>What preloading should amount to\<close>

text \<open>
  The image paths of a tree in the order in which \<open>preload_images\<close> meets them: the
  node's own path when it has one, then those of its children from left to right.
\<close>

fun image_ids :: "TreeNode \<Rightarrow> string list" where
  "image_ids (TreeNode n i cs) =
     (case truthy_image i of Some s \<Rightarrow> [s] | None \<Rightarrow> []) @ concat (map image_ids cs)"

text \<open>
  Decoding a list of paths in order into the dictionary, up to the first one that fails.
\<close>

fun decode_in_order ::
  "(string \<Rightarrow> string + 'h) \<Rightarrow> string list \<Rightarrow> (string \<rightharpoonup> 'h) \<Rightarrow> (error + unit) \<times> (string \<rightharpoonup> 'h)"
where
  "decode_in_order decode [] preloaded = (Inr (), preloaded)"
| "decode_in_order decode (s # ids) preloaded =
     (case decode s of
        Inl e \<Rightarrow> (Inl (ValueError (Failed_to_load s (Decode_failure e))), preloaded)
      | Inr h \<Rightarrow> decode_in_order decode ids (preloaded(s \<mapsto> h)))"

text \<open>A tree with three images, the second of which cannot be decoded.\<close>

definition bad_image_tree :: TreeNode where
  "bad_image_tree =
     TreeNode ''r'' (Some ''a.png'')
       [TreeNode ''x'' (Some ''bad.png'') [], TreeNode ''y'' (Some ''c.png'') []]"

definition bad_decode :: "string \<Rightarrow> string + unit" where
  "bad_decode s = (if s = ''bad.png'' then Inl ''cannot identify image file'' else Inr ())"

text \<open>
  The graph object of the tree with two leaves after the call
  \<^verbatim>\<open>tree_graph.preload_images(bad_image_tree)\<close> has raised: its dictionary is the one
  that the failed call left behind.
\<close>

definition after_failed_preload :: "unit TreeGraph" where
  "after_failed_preload =
     hello_world_graph
       \<lparr>preloaded_images :=
          snd (preload_images bad_decode bad_image_tree (preloaded_images hello_world_graph))\<rparr>"

section \<open>Reading the canvas\<close>

text \<open>
  The shape of a node is the image or the rectangle drawn for it; its label is the text
  drawn at the node's own coordinates.
\<close>

fun is_shape :: "'h canvas_item \<Rightarrow> bool" where
  "is_shape (create_image x y h) = True"
| "is_shape (create_rectangle x1 y1 x2 y2) = True"
| "is_shape item = False"

fun is_label :: "'h canvas_item \<Rightarrow> bool" where
  "is_label (create_text x y s) = True"
| "is_label item = False"

text \<open>The labels on a canvas, in the order drawn, each with its y-coordinate.\<close>

fun label_row :: "'h canvas_item \<Rightarrow> (string \<times> int) list" where
  "label_row (create_text x y s) = [(s, y)]"
| "label_row item = []"

definition label_rows :: "'h canvas_item list \<Rightarrow> (string \<times> int) list" where
  "label_rows cv = concat (map label_row cv)"

text \<open>The names of the nodes of a tree in pre-order, each with its depth below the root.\<close>

fun node_depths :: "TreeNode \<Rightarrow> (string \<times> nat) list" where
  "node_depths (TreeNode n i cs) =
     (n, 0) # concat (map (\<lambda>c. map (\<lambda>(m, k). (m, Suc k)) (node_depths c)) cs)"

text \<open>The items of a canvas with the image handles forgotten: kinds, coordinates, texts.\<close>

definition coordinates :: "'h canvas_item list \<Rightarrow> unit canvas_item list" where
  "coordinates cv = map (map_canvas_item (\<lambda>h. ())) cv"

section \<open>Properties of the size computation\<close>

lemma py_max_Max: "py_max x xs = Max (set (x # xs))"
proof -
  have "Max (set (x # xs)) = fold max xs x"
    by (rule Max.set_eq_fold)
  then show ?thesis by (simp only: py_max_def)
qed

lemma calculate_tree_size_children:
  assumes "cs \<noteq> []"
  shows "calculate_tree_size (TreeNode n i cs) =
    (max (Max (set (map (fst \<circ> calculate_tree_size) cs))) (int (length cs)),
     sum_list (map (snd \<circ> calculate_tree_size) cs) + 1)"
proof -
  from assms obtain c cs' where cs: "cs = c # cs'" by (cases cs) auto
  show ?thesis
    unfolding cs by (simp add: py_max_Max Let_def image_image)
qed

lemma int_sum_list_map: "int (sum_list (map f xs)) = sum_list (map (int \<circ> f) xs)"
  by (induction xs) simp_all

lemma calculate_tree_size_height: "snd (calculate_tree_size t) = int (count_nodes t)"
proof (induction t rule: calculate_tree_size.induct)
  case (1 n i)
  show ?case by simp
next
  case (2 n i c cs)
  have "map (snd \<circ> calculate_tree_size) (c # cs) = map (int \<circ> count_nodes) (c # cs)"
    using 2 by simp
  then have "sum_list (map (snd \<circ> calculate_tree_size) (c # cs)) =
      int (sum_list (map count_nodes (c # cs)))"
    by (simp only: int_sum_list_map)
  then show ?case
    by (simp add: calculate_tree_size_children)
qed

lemma count_nodes_positive: "0 < count_nodes t"
  by (cases t) simp

lemma calculate_tree_size_positive:
  "1 \<le> fst (calculate_tree_size t) \<and> 1 \<le> snd (calculate_tree_size t)"
proof
  show "1 \<le> fst (calculate_tree_size t)"
  proof (cases t)
    case (TreeNode n i cs)
    show ?thesis
    proof (cases "cs = []")
      case True
      with TreeNode show ?thesis by simp
    next
      case False
      then have "1 \<le> int (length cs)" by (cases cs) simp_all
      with False show ?thesis
        unfolding TreeNode by (simp add: calculate_tree_size_children)
    qed
  qed
next
  show "1 \<le> snd (calculate_tree_size t)"
    using count_nodes_positive [of t] by (simp add: calculate_tree_size_height)
qed

lemma chain_size:
  "is_chain d t \<Longrightarrow>
    (\<forall>s \<in> set (nodes t). fst (calculate_tree_size s) = 1) \<and> snd (calculate_tree_size t) = int d"
proof (induction d t rule: is_chain.induct)
  case (1 t)
  then show ?case by simp
next
  case (2 d n i cs)
  show ?case
  proof (cases cs)
    case Nil
    with 2 show ?thesis by simp
  next
    case (Cons c cs')
    with "2.prems" have cs: "cs = [c]" and ch: "is_chain d c"
      by (auto split: list.splits)
    from "2.IH" [of c "[]"] Cons cs ch
    have ih: "(\<forall>s \<in> set (nodes c). fst (calculate_tree_size s) = 1) \<and>
        snd (calculate_tree_size c) = int d"
      by simp
    moreover have "c \<in> set (nodes c)" by (cases c) simp
    ultimately have "fst (calculate_tree_size c) = 1" by blast
    with ih show ?thesis
      unfolding cs by (simp add: py_max_def)
  qed
qed

lemma calculate_node_spacing_footprint:
  "calculate_node_spacing w h (calculate_tree_size t) =
     Inr (w div fst (calculate_tree_size t), h div snd (calculate_tree_size t))"
  using calculate_tree_size_positive [of t]
  by (simp add: calculate_node_spacing_def py_floordiv_def)

section \<open>The claims about the size computation\<close>

text \<open>
  C1. The footprint of every node follows the policy: a leaf has width 1 and height 1;
  a node with children has as width the larger of the greatest width among its children
  and the number of its children, and as height the sum of its children's heights plus 1.
\<close>

theorem calculate_tree_size_footprint:
  "calculate_tree_size t =
     (if children t = [] then (1, 1)
      else (max (Max (set (map (fst \<circ> calculate_tree_size) (children t))))
              (int (length (children t))),
            sum_list (map (snd \<circ> calculate_tree_size) (children t)) + 1))"
proof (cases t)
  case (TreeNode n i cs)
  show ?thesis
  proof (cases "cs = []")
    case True
    with TreeNode show ?thesis by simp
  next
    case False
    from calculate_tree_size_children [OF False, of n i] TreeNode False
    show ?thesis by simp
  qed
qed

theorem calculate_tree_size_footprint_witness:
  "calculate_tree_size example_tree = (2, 6)"
  using calculate_tree_size_footprint [of example_tree]
  by (simp add: example_tree_def py_max_def)

text \<open>
  C7. In a chain of depth 10 (every node but the last has exactly one child), the width of
  the footprint is 1 at every node and the height of the footprint of the root is 10.
\<close>

theorem chain_depth_10_footprint:
  "is_chain 10 t \<Longrightarrow>
     (\<forall>s \<in> set (nodes t). fst (calculate_tree_size s) = 1) \<and> snd (calculate_tree_size t) = 10"
  using chain_size [of 10 t] by simp

theorem chain_depth_10_footprint_witness:
  "is_chain 10 (chain 9) \<and>
   map (fst \<circ> calculate_tree_size) (nodes (chain 9)) = replicate 10 1 \<and>
   snd (calculate_tree_size (chain 9)) = 10"
proof -
  have h: "is_chain 10 (chain 9)" by code_simp
  have m: "map (fst \<circ> calculate_tree_size) (nodes (chain 9)) = replicate 10 1" by code_simp
  from chain_depth_10_footprint [OF h] have "snd (calculate_tree_size (chain 9)) = 10" by blast
  with h m show ?thesis by blast
qed

text \<open>
  C9. The height of the footprint of a tree is the number of its nodes: a leaf counts 1, a
  node with children 1 plus the sum over its children.
\<close>

theorem footprint_height_counts_nodes:
  "snd (calculate_tree_size t) = int (count_nodes t)"
  by (rule calculate_tree_size_height)

theorem footprint_height_counts_nodes_witness:
  "snd (calculate_tree_size hello_world_tree) = 3 \<and> count_nodes hello_world_tree = 3"
  using footprint_height_counts_nodes [of hello_world_tree]
  by (simp add: hello_world_tree_def)

section \<open>The claim about the spacing\<close>

text \<open>
  C3, as the code has it. For every canvas size and every tree, the spacing is the floor
  of the canvas width by the width of the footprint and the floor of the canvas height by
  the height of the footprint, and computing it never fails: a step of zero is returned
  like any other.
\<close>

theorem calculate_node_spacing_never_fails:
  "calculate_node_spacing w h (calculate_tree_size t) =
     Inr (w div fst (calculate_tree_size t), h div snd (calculate_tree_size t))"
  by (rule calculate_node_spacing_footprint)

theorem calculate_node_spacing_never_fails_witness:
  "calculate_node_spacing 800 600 (calculate_tree_size example_tree) = Inr (400, 100)"
  using calculate_node_spacing_never_fails [of 800 600 example_tree]
  by (simp add: example_tree_def py_max_def)

text \<open>
  The claim as the specification states it fails: on a canvas of 1 by 1 the tree with two
  leaves gets the spacing (0, 0) and no error; and on the canvas of 800 by 600 that the
  constructor sets up, the tree with 801 leaves has the footprint (801, 802), and the
  constructor returns a graph object with the spacing (0, 0).
\<close>

theorem degenerate_spacing_counterexample:
  "calculate_node_spacing 1 1 (calculate_tree_size hello_world_tree) = Inr (0, 0) \<and>
   (case TreeGraph_init (\<lambda>s. Inr ()) wide_tree of
      Inl e \<Rightarrow> None
    | Inr g \<Rightarrow> Some (tree_size g, x_spacing g, y_spacing g)) = Some ((801, 802), 0, 0)"
proof -
  have "calculate_node_spacing 1 1 (calculate_tree_size hello_world_tree) = Inr (0, 0)"
    by (simp add: calculate_node_spacing_def py_floordiv_def hello_world_tree_def py_max_def)
  moreover have "(case TreeGraph_init (\<lambda>s. Inr ()) wide_tree of
      Inl e \<Rightarrow> None
    | Inr g \<Rightarrow> Some (tree_size g, x_spacing g, y_spacing g)) = Some ((801, 802), 0, 0)"
    unfolding wide_tree_def by code_simp
  ultimately show ?thesis by (rule conjI)
qed

section \<open>The tree with two leaves, drawn\<close>

lemma hello_world_init:
  "TreeGraph_init decode hello_world_tree =
     Inr \<lparr>data = hello_world_tree, tree_size = (2, 3), canvas_width = 800, canvas_height = 600,
          x_spacing = 400, y_spacing = 200, canvas = [create_window 0 0],
          scrollregion = None, preloaded_images = Map.empty\<rparr>"
  by (simp add: TreeGraph_init_def calculate_node_spacing_def py_floordiv_def
      hello_world_tree_def py_max_def)

text \<open>
  C4, evaluated. Built from the tree with the leaves "Hello" and "World" and displayed,
  the graph draws the root at (400, 30), an arrow to each leaf, and both leaves at
  y = 30 + 200; but "Hello" is at x = 200 and "World" at x = 280: after the first leaf
  the loop moves on by the width the leaf returned, 80, not by the spacing, 400. The two
  leaves are not symmetric around x = 400.
\<close>

theorem hello_world_display:
  "TreeGraph_init (\<lambda>s. Inr ()) hello_world_tree = Inr hello_world_graph \<and>
   fst (display_tree hello_world_graph) = Inr () \<and>
   canvas (snd (display_tree hello_world_graph)) =
     [create_window 0 0,
      create_rectangle 360 0 440 60, create_text 400 30 ''root'',
      create_line 400 60 200 200,
      create_rectangle 160 200 240 260, create_text 200 230 ''Hello'',
      create_line 400 60 280 200,
      create_rectangle 240 200 320 260, create_text 280 230 ''World''] \<and>
   (200 + 280 :: int) \<noteq> 2 * 400"
proof -
  have "TreeGraph_init (\<lambda>s. Inr ()) hello_world_tree = Inr hello_world_graph"
    by (simp only: hello_world_init hello_world_graph_def)
  moreover have "display_tree hello_world_graph =
    (Inr (), hello_world_graph
      \<lparr>canvas :=
         [create_window 0 0,
          create_rectangle 360 0 440 60, create_text 400 30 ''root'',
          create_line 400 60 200 200,
          create_rectangle 160 200 240 260, create_text 200 230 ''Hello'',
          create_line 400 60 280 200,
          create_rectangle 240 200 320 260, create_text 280 230 ''World''],
       scrollregion := Some (- 400, - 30, 400, 600)\<rparr>)"
    by (simp add: display_tree_def hello_world_graph_def hello_world_tree_def
        node_width_def node_height_def)
  ultimately show ?thesis by simp
qed

section \<open>The claim about the width returned\<close>




section \<open>Preloading\<close>

lemma decode_in_order_append:
  "decode_in_order decode (xs @ ys) pre =
     (case decode_in_order decode xs pre of
        (Inl e, m) \<Rightarrow> (Inl e, m)
      | (Inr u, m) \<Rightarrow> decode_in_order decode ys m)"
  by (induction xs arbitrary: pre) (auto split: sum.splits)

lemma preload_is_decode_in_order:
  "preload_images decode t pre = decode_in_order decode (image_ids t) pre"
  "preload_children decode cs pre = decode_in_order decode (concat (map image_ids cs)) pre"
proof (induction decode t pre and decode cs pre rule: preload_images_preload_children.induct)
  case (1 decode n i cs preloaded)
  then show ?case by (auto simp: fun_upd_def split: option.splits sum.splits)
next
  case (2 decode preloaded)
  show ?case by simp
next
  case (3 decode c cs preloaded)
  then show ?case
    by (auto simp: decode_in_order_append split: prod.splits sum.splits)
qed

lemma first_failure_split:
  assumes "s \<in> set ids" and "isl (decode s)"
  shows "\<exists>ok f c rest. ids = ok @ f # rest \<and> list_all (\<lambda>k. \<not> isl (decode k)) ok \<and>
    decode f = Inl c"
proof -
  from assms have "\<exists>k \<in> set ids. isl (decode k)" by blast
  from split_list_first_prop [OF this]
  obtain ok f rest where ids: "ids = ok @ f # rest" and f: "isl (decode f)"
    and ok: "\<forall>k \<in> set ok. \<not> isl (decode k)"
    by blast
  from f obtain c where "decode f = Inl c" by (cases "decode f") simp_all
  with ids ok show ?thesis by (auto simp: list_all_iff)
qed

lemma decode_in_order_failure:
  assumes "list_all (\<lambda>k. \<not> isl (decode k)) ok" and "decode f = Inl c"
  shows "fst (decode_in_order decode (ok @ f # rest) pre) =
      Inl (ValueError (Failed_to_load f (Decode_failure c))) \<and>
    dom (snd (decode_in_order decode (ok @ f # rest) pre)) = dom pre \<union> set ok"
  using assms
proof (induction ok arbitrary: pre)
  case Nil
  then show ?case by simp
next
  case (Cons a ok)
  then obtain h where "decode a = Inr h" by (cases "decode a") simp_all
  with Cons show ?case by auto
qed

lemma TreeGraph_init_preload_error:
  "fst (preload_images decode t Map.empty) = Inl e \<Longrightarrow> TreeGraph_init decode t = Inl e"
  by (cases "preload_images decode t Map.empty")
    (simp add: TreeGraph_init_def calculate_node_spacing_footprint)

text \<open>
  C6, as the code has it. If the image of some node cannot be decoded, preloading stops
  at the first such image in the order of the traversal, and the error raised names that
  path and carries the text of the decoder's exception. Nothing is rolled back: the
  paths before the failure were decoded and stay in the dictionary, and no path after
  it is decoded. When this happens in the constructor, the constructor raises the same
  error and returns no graph object.
\<close>

theorem preload_stops_at_first_failure:
  assumes "s \<in> set (image_ids t)" and "isl (decode s)"
  shows "\<exists>ok f c rest. image_ids t = ok @ f # rest \<and> list_all (\<lambda>k. \<not> isl (decode k)) ok \<and>
    decode f = Inl c \<and>
    fst (preload_images decode t pre) = Inl (ValueError (Failed_to_load f (Decode_failure c))) \<and>
    dom (snd (preload_images decode t pre)) = dom pre \<union> set ok \<and>
    TreeGraph_init decode t = Inl (ValueError (Failed_to_load f (Decode_failure c)))"
proof -
  from first_failure_split [where decode = decode and s = s, OF assms]
  obtain ok f c rest where ids: "image_ids t = ok @ f # rest"
    and ok: "list_all (\<lambda>k. \<not> isl (decode k)) ok" and f: "decode f = Inl c"
    by blast
  have res: "fst (preload_images decode t m) =
        Inl (ValueError (Failed_to_load f (Decode_failure c))) \<and>
      dom (snd (preload_images decode t m)) = dom m \<union> set ok" for m
    using decode_in_order_failure [OF ok f, of rest m]
    by (simp only: preload_is_decode_in_order ids)
  from res [of Map.empty]
  have "TreeGraph_init decode t = Inl (ValueError (Failed_to_load f (Decode_failure c)))"
    by (simp only: TreeGraph_init_preload_error)
  with ids ok f res [of pre] show ?thesis by blast
qed

theorem preload_stops_at_first_failure_witness:
  "''bad.png'' \<in> set (image_ids bad_image_tree) \<and> isl (bad_decode ''bad.png'') \<and>
   fst (preload_images bad_decode bad_image_tree Map.empty) =
     Inl (ValueError (Failed_to_load ''bad.png'' (Decode_failure ''cannot identify image file''))) \<and>
   dom (snd (preload_images bad_decode bad_image_tree Map.empty)) = {''a.png''} \<and>
   TreeGraph_init bad_decode bad_image_tree =
     Inl (ValueError (Failed_to_load ''bad.png'' (Decode_failure ''cannot identify image file'')))"
proof -
  have ids: "image_ids bad_image_tree = [''a.png'', ''bad.png'', ''c.png'']"
    by (simp add: bad_image_tree_def)
  have h1: "''bad.png'' \<in> set (image_ids bad_image_tree)"
    by (simp add: ids)
  have h2: "isl (bad_decode ''bad.png'')"
    by (simp add: bad_decode_def)
  from preload_stops_at_first_failure
    [where decode = bad_decode and s = "''bad.png''" and pre = Map.empty, OF h1 h2]
  obtain ok f c rest where split: "[''a.png'', ''bad.png'', ''c.png''] = ok @ f # rest"
    and ok: "list_all (\<lambda>k. \<not> isl (bad_decode k)) ok" and f: "bad_decode f = Inl c"
    and res: "fst (preload_images bad_decode bad_image_tree Map.empty) =
      Inl (ValueError (Failed_to_load f (Decode_failure c)))"
    and dom: "dom (snd (preload_images bad_decode bad_image_tree Map.empty)) = dom (Map.empty :: string \<rightharpoonup> unit) \<union> set ok"
    and init: "TreeGraph_init bad_decode bad_image_tree =
      Inl (ValueError (Failed_to_load f (Decode_failure c)))"
    unfolding ids by blast
  from f have fbad: "f = ''bad.png''" and c: "c = ''cannot identify image file''"
    by (auto simp: bad_decode_def split: if_splits)
  from split fbad have "ok = [''a.png'']"
    by (auto simp: append_eq_Cons_conv Cons_eq_append_conv)
  with h1 h2 res dom init fbad c show ?thesis by simp
qed

text \<open>
  The claim as the specification states it fails: preloading is not all-or-nothing.
  Called on an existing graph object, \<open>preload_images\<close> raises at "bad.png" and leaves
  "a.png", decoded before the failure, in the dictionary of the object. A node with the
  image "a.png", for which \<open>draw_tree\<close> raised before the call, is drawn with that image
  after it.
\<close>

theorem preload_partial_set_counterexample:
  "fst (preload_images bad_decode bad_image_tree (preloaded_images hello_world_graph)) =
     Inl (ValueError (Failed_to_load ''bad.png'' (Decode_failure ''cannot identify image file''))) \<and>
   preloaded_images hello_world_graph ''a.png'' = None \<and>
   preloaded_images after_failed_preload ''a.png'' = Some () \<and>
   draw_tree hello_world_graph (TreeNode ''r'' (Some ''a.png'') []) 400 30 [] =
     (Inl (ValueError (Failed_to_load ''a.png'' (KeyError ''a.png''))), []) \<and>
   draw_tree after_failed_preload (TreeNode ''r'' (Some ''a.png'') []) 400 30 [] =
     (Inr 80, [create_image 400 30 (), create_text 400 30 ''r''])"
  by (simp add: after_failed_preload_def hello_world_graph_def bad_image_tree_def bad_decode_def
      node_width_def)

section \<open>What drawing adds to the canvas\<close>

lemma draw_children_frame:
  assumes "\<And>c x y. c \<in> set cs \<Longrightarrow> \<exists>r items. \<forall>cv. draw_tree g c x y cv = (r, cv @ items)"
  shows "\<exists>r items. \<forall>cv. draw_children g cs x y sx cv = (r, cv @ items)"
  using assms
proof (induction cs arbitrary: sx)
  case Nil
  have "\<forall>cv. draw_children g [] x y sx cv = (Inr (), cv @ [])" by simp
  then show ?case by blast
next
  case (Cons c cs)
  let ?ln = "create_line x (y + node_height div 2) (sx + x_spacing g div 2)
      (y + y_spacing g - node_height div 2)"
  from Cons.prems [of c "sx + x_spacing g div 2" "y + y_spacing g"]
  obtain r1 o1 where c: "\<And>cv. draw_tree g c (sx + x_spacing g div 2) (y + y_spacing g) cv = (r1, cv @ o1)"
    by auto
  show ?case
  proof (cases r1)
    case (Inl e)
    have "\<forall>cv. draw_children g (c # cs) x y sx cv = (Inl (error_drawing e), cv @ (?ln # o1))"
      by (simp add: c Inl Let_def)
    then show ?thesis by blast
  next
    case (Inr w)
    from Cons.IH [of "sx + w"] Cons.prems
    obtain r2 o2 where cs: "\<And>cv. draw_children g cs x y (sx + w) cv = (r2, cv @ o2)"
      by auto
    have "\<forall>cv. draw_children g (c # cs) x y sx cv = (r2, cv @ (?ln # o1 @ o2))"
      by (simp add: c cs Inr Let_def)
    then show ?thesis by blast
  qed
qed

lemma draw_tree_frame:
  "\<exists>r items. \<forall>cv. draw_tree g t x y cv = (r, cv @ items)"
proof (induction t arbitrary: x y)
  case (TreeNode n i cs)
  let ?sx = "x - int (length cs) * x_spacing g div 2"
  from draw_children_frame [of cs g x y ?sx] TreeNode
  obtain r2 o2 where cs: "\<And>cv. draw_children g cs x y ?sx cv = (r2, cv @ o2)"
    by blast
  let ?rect = "create_rectangle (x - node_width div 2) (y - node_height div 2)
      (x + node_width div 2) (y + node_height div 2)"
  let ?tail = "\<lambda>shape. if cs = [] then (Inr node_width, [shape, create_text x y n])
      else (case r2 of Inl e \<Rightarrow> Inl e | Inr u \<Rightarrow> Inr (int (length cs) * x_spacing g),
            shape # create_text x y n # o2)"
  let ?items = "case truthy_image i of
      None \<Rightarrow> ?tail ?rect
    | Some s \<Rightarrow> (case preloaded_images g s of
        None \<Rightarrow> (Inl (ValueError (Failed_to_load s (KeyError s))), [])
      | Some h \<Rightarrow> ?tail (create_image x y h))"
  have "\<forall>cv. draw_tree g (TreeNode n i cs) x y cv = (fst ?items, cv @ snd ?items)"
    by (auto simp: cs Let_def split: option.splits sum.splits)
  then show ?case by blast
qed


lemma draw_tree_canvas:
  "draw_tree g t x y cv = (fst (draw_tree g t x y []), cv @ snd (draw_tree g t x y []))"
proof -
  from draw_tree_frame [of g t x y]
  obtain r items where h: "\<And>cv. draw_tree g t x y cv = (r, cv @ items)" by blast
  show ?thesis by (simp add: h)
qed

lemma draw_children_step:
  "draw_children g (c # cs) x y sx [] =
     (case draw_tree g c (sx + x_spacing g div 2) (y + y_spacing g) [] of
        (Inl e, o1) \<Rightarrow>
          (Inl (error_drawing e),
           create_line x (y + 30) (sx + x_spacing g div 2) (y + y_spacing g - 30) # o1)
      | (Inr w, o1) \<Rightarrow>
          (case draw_children g cs x y (sx + w) [] of
             (r, o2) \<Rightarrow>
               (r, create_line x (y + 30) (sx + x_spacing g div 2) (y + y_spacing g - 30) # o1 @ o2)))"
proof -
  from draw_tree_frame [of g c "sx + x_spacing g div 2" "y + y_spacing g"]
  obtain r1 o1 where c: "\<And>cv. draw_tree g c (sx + x_spacing g div 2) (y + y_spacing g) cv = (r1, cv @ o1)"
    by blast
  show ?thesis
  proof (cases r1)
    case (Inl e)
    then show ?thesis by (simp add: c Let_def node_height_def)
  next
    case (Inr w)
    have "\<And>c x y. \<exists>r items. \<forall>cv. draw_tree g c x y cv = (r, cv @ items)"
      by (rule draw_tree_frame)
    from draw_children_frame [of cs g x y "sx + w", OF this]
    obtain r2 o2 where cs: "\<And>cv. draw_children g cs x y (sx + w) cv = (r2, cv @ o2)"
      by blast
    show ?thesis by (simp add: c cs Inr Let_def node_height_def)
  qed
qed

lemma draw_tree_step:
  "draw_tree g (TreeNode n i cs) x y [] =
     (case truthy_image i of
        Some s \<Rightarrow>
          (case preloaded_images g s of
             None \<Rightarrow> (Inl (ValueError (Failed_to_load s (KeyError s))), [])
           | Some h \<Rightarrow>
               (if cs = [] then (Inr 80, [create_image x y h, create_text x y n])
                else (case draw_children g cs x y (x - int (length cs) * x_spacing g div 2) [] of
                        (Inl e, o2) \<Rightarrow> (Inl e, create_image x y h # create_text x y n # o2)
                      | (Inr u, o2) \<Rightarrow>
                          (Inr (int (length cs) * x_spacing g),
                           create_image x y h # create_text x y n # o2))))
      | None \<Rightarrow>
          (if cs = [] then
             (Inr 80, [create_rectangle (x - 40) (y - 30) (x + 40) (y + 30), create_text x y n])
           else (case draw_children g cs x y (x - int (length cs) * x_spacing g div 2) [] of
                   (Inl e, o2) \<Rightarrow>
                     (Inl e, create_rectangle (x - 40) (y - 30) (x + 40) (y + 30) #
                        create_text x y n # o2)
                 | (Inr u, o2) \<Rightarrow>
                     (Inr (int (length cs) * x_spacing g),
                      create_rectangle (x - 40) (y - 30) (x + 40) (y + 30) #
                        create_text x y n # o2))))"
proof -
  have "\<And>c x y. \<exists>r items. \<forall>cv. draw_tree g c x y cv = (r, cv @ items)"
    by (rule draw_tree_frame)
  from draw_children_frame [of cs g x y "x - int (length cs) * x_spacing g div 2", OF this]
  obtain r2 o2 where cs:
    "\<And>cv. draw_children g cs x y (x - int (length cs) * x_spacing g div 2) cv = (r2, cv @ o2)"
    by blast
  show ?thesis
    by (simp add: cs Let_def node_width_def node_height_def split: option.splits sum.splits)
qed


lemma draw_children_counts:
  assumes "\<And>c x y. c \<in> set cs \<Longrightarrow>
    \<exists>w o1. draw_tree g c x y [] = (Inr w, o1) \<and>
      length (filter is_shape o1) = count_nodes c \<and> length (filter is_label o1) = count_nodes c"
  shows "\<exists>o2. draw_children g cs x y sx [] = (Inr (), o2) \<and>
    length (filter is_shape o2) = sum_list (map count_nodes cs) \<and>
    length (filter is_label o2) = sum_list (map count_nodes cs)"
  using assms
proof (induction cs arbitrary: sx)
  case Nil
  show ?case by simp
next
  case (Cons c cs)
  from Cons.prems [of c "sx + x_spacing g div 2" "y + y_spacing g"]
  obtain w o1 where c: "draw_tree g c (sx + x_spacing g div 2) (y + y_spacing g) [] = (Inr w, o1)"
    and c1: "length (filter is_shape o1) = count_nodes c"
    and c2: "length (filter is_label o1) = count_nodes c"
    by auto
  from Cons.IH [of "sx + w"] Cons.prems
  obtain o2 where cs: "draw_children g cs x y (sx + w) [] = (Inr (), o2)"
    and cs1: "length (filter is_shape o2) = sum_list (map count_nodes cs)"
    and cs2: "length (filter is_label o2) = sum_list (map count_nodes cs)"
    by auto
  show ?case
    by (subst draw_children_step) (simp add: c c1 c2 cs cs1 cs2)
qed

lemma draw_tree_counts:
  "set (image_ids t) \<subseteq> dom (preloaded_images g) \<Longrightarrow>
   \<exists>w o1. draw_tree g t x y [] = (Inr w, o1) \<and>
     length (filter is_shape o1) = count_nodes t \<and> length (filter is_label o1) = count_nodes t"
proof (induction t arbitrary: x y)
  case (TreeNode n i cs)
  have "\<exists>w o1. draw_tree g c x' y' [] = (Inr w, o1) \<and>
      length (filter is_shape o1) = count_nodes c \<and> length (filter is_label o1) = count_nodes c"
    if "c \<in> set cs" for c x' y'
  proof -
    from that TreeNode.prems have "set (image_ids c) \<subseteq> dom (preloaded_images g)" by auto
    with TreeNode.IH [OF that] show ?thesis by blast
  qed
  from draw_children_counts [of cs g x y "x - int (length cs) * x_spacing g div 2", OF this]
  obtain o2 where cs: "draw_children g cs x y (x - int (length cs) * x_spacing g div 2) [] = (Inr (), o2)"
    and cs1: "length (filter is_shape o2) = sum_list (map count_nodes cs)"
    and cs2: "length (filter is_label o2) = sum_list (map count_nodes cs)"
    by blast
  have img: "\<exists>h. preloaded_images g s = Some h" if "truthy_image i = Some s" for s
    using that TreeNode.prems by auto
  show ?case
    by (subst draw_tree_step) (auto simp: cs cs1 cs2 dest: img split: option.splits)
qed

lemma draw_children_rows:
  assumes "\<And>c x y w o1. c \<in> set cs \<Longrightarrow> draw_tree g c x y [] = (Inr w, o1) \<Longrightarrow>
    label_rows o1 = map (\<lambda>(m, k). (m, y + int k * y_spacing g)) (node_depths c)"
    and "draw_children g cs x y sx [] = (Inr u, o2)"
  shows "label_rows o2 =
    concat (map (\<lambda>c. map (\<lambda>(m, k). (m, y + int (Suc k) * y_spacing g)) (node_depths c)) cs)"
  using assms
proof (induction cs arbitrary: sx o2)
  case Nil
  then show ?case by (simp add: label_rows_def)
next
  case (Cons c cs)
  from Cons.prems(2)
  obtain w o1 o3 where c: "draw_tree g c (sx + x_spacing g div 2) (y + y_spacing g) [] = (Inr w, o1)"
    and cs: "draw_children g cs x y (sx + w) [] = (Inr u, o3)"
    and o2: "o2 = create_line x (y + 30) (sx + x_spacing g div 2) (y + y_spacing g - 30) # o1 @ o3"
    by (subst (asm) draw_children_step) (auto split: prod.splits sum.splits)
  from Cons.prems(1) [OF _ c]
  have r1: "label_rows o1 = map (\<lambda>(m, k). (m, y + y_spacing g + int k * y_spacing g)) (node_depths c)"
    by simp
  from Cons.IH [OF _ cs] Cons.prems(1)
  have r3: "label_rows o3 =
    concat (map (\<lambda>c. map (\<lambda>(m, k). (m, y + int (Suc k) * y_spacing g)) (node_depths c)) cs)"
    by simp
  have "(\<lambda>(m, k). (m, y + y_spacing g + int k * y_spacing g)) =
      (\<lambda>(m :: string, k). (m, y + int (Suc k) * y_spacing g))"
    by (auto simp: fun_eq_iff algebra_simps)
  with r1 r3 o2 show ?case
    by (simp add: label_rows_def)
qed

lemma draw_tree_rows:
  "draw_tree g t x y [] = (Inr w, o1) \<Longrightarrow>
   label_rows o1 = map (\<lambda>(m, k). (m, y + int k * y_spacing g)) (node_depths t)"
proof (induction t arbitrary: x y w o1)
  case (TreeNode n i cs)
  define below where "below = (\<lambda>c. map (\<lambda>(m, k). (m, y + int (Suc k) * y_spacing g)) (node_depths c))"
  have kids: "label_rows o2 = concat (map below cs)"
    if "draw_children g cs x y sx [] = (Inr u, o2)" for sx u o2
    unfolding below_def using draw_children_rows [OF _ that] TreeNode.IH by blast
  have rhs: "map (\<lambda>(m, k). (m, y + int k * y_spacing g)) (node_depths (TreeNode n i cs)) =
      (n, y) # concat (map below cs)"
    by (simp add: map_concat comp_def below_def split_def)
  from TreeNode.prems
  have "\<exists>shape o2. o1 = shape # create_text x y n # o2 \<and> label_row shape = [] \<and>
      label_rows o2 = concat (map below cs)"
    by (subst (asm) draw_tree_step)
      (auto simp: label_rows_def [of "[]"] dest!: kids
        split: option.splits if_splits prod.splits sum.splits)
  then obtain shape o2 where "o1 = shape # create_text x y n # o2" and "label_row shape = []"
    and "label_rows o2 = concat (map below cs)"
    by blast
  then have "label_rows o1 = (n, y) # concat (map below cs)"
    by (simp add: label_rows_def)
  with rhs show ?case by simp
qed


lemma draw_children_same:
  assumes "x_spacing g1 = x_spacing g2" and "y_spacing g1 = y_spacing g2"
    and "\<And>c x y w1 o1 w2 o2. c \<in> set cs \<Longrightarrow> draw_tree g1 c x y [] = (Inr w1, o1) \<Longrightarrow>
      draw_tree g2 c x y [] = (Inr w2, o2) \<Longrightarrow> w1 = w2 \<and> coordinates o1 = coordinates o2"
    and "draw_children g1 cs x y sx [] = (Inr u1, p1)"
    and "draw_children g2 cs x y sx [] = (Inr u2, p2)"
  shows "coordinates p1 = coordinates p2"
  using assms(3-5)
proof (induction cs arbitrary: sx p1 p2)
  case Nil
  then show ?case by (auto simp: coordinates_def)
next
  case (Cons c cs)
  from Cons.prems(2)
  obtain w1 o1 q1 where c1: "draw_tree g1 c (sx + x_spacing g1 div 2) (y + y_spacing g1) [] = (Inr w1, o1)"
    and cs1: "draw_children g1 cs x y (sx + w1) [] = (Inr u1, q1)"
    and p1: "p1 = create_line x (y + 30) (sx + x_spacing g1 div 2) (y + y_spacing g1 - 30) # o1 @ q1"
    by (subst (asm) draw_children_step) (auto split: prod.splits sum.splits)
  from Cons.prems(3)
  obtain w2 o2 q2 where c2: "draw_tree g2 c (sx + x_spacing g2 div 2) (y + y_spacing g2) [] = (Inr w2, o2)"
    and cs2: "draw_children g2 cs x y (sx + w2) [] = (Inr u2, q2)"
    and p2: "p2 = create_line x (y + 30) (sx + x_spacing g2 div 2) (y + y_spacing g2 - 30) # o2 @ q2"
    by (subst (asm) draw_children_step) (auto split: prod.splits sum.splits)
  from Cons.prems(1) [of c, OF _ c1 c2 [folded assms(1,2)]]
  have w: "w1 = w2" and o: "coordinates o1 = coordinates o2" by simp_all
  have q: "coordinates q1 = coordinates q2"
  proof (rule Cons.IH [OF _ cs1 cs2 [folded w]])
    fix c' x' y' w1' o1' w2' o2'
    assume "c' \<in> set cs" and d1: "draw_tree g1 c' x' y' [] = (Inr w1', o1')"
      and d2: "draw_tree g2 c' x' y' [] = (Inr w2', o2')"
    then have "c' \<in> set (c # cs)" by simp
    from Cons.prems(1) [OF this d1 d2]
    show "w1' = w2' \<and> coordinates o1' = coordinates o2'" .
  qed
  from o q show ?case
    unfolding p1 p2 by (simp add: coordinates_def assms(1,2))
qed

lemma draw_tree_same:
  assumes "x_spacing g1 = x_spacing g2" and "y_spacing g1 = y_spacing g2"
  shows "draw_tree g1 t x y [] = (Inr w1, o1) \<Longrightarrow> draw_tree g2 t x y [] = (Inr w2, o2) \<Longrightarrow>
    w1 = w2 \<and> coordinates o1 = coordinates o2"
proof (induction t arbitrary: x y w1 o1 w2 o2)
  case (TreeNode n i cs)
  have kids: "coordinates p1 = coordinates p2"
    if "draw_children g1 cs x y sx [] = (Inr u1, p1)" and "draw_children g2 cs x y sx [] = (Inr u2, p2)"
    for sx u1 p1 u2 p2
    using draw_children_same [OF assms _ that] TreeNode.IH by blast
  show ?case
  proof (cases "cs = []")
    case True
    from TreeNode.prems show ?thesis
      unfolding True
      by (subst (asm) draw_tree_step, subst (asm) draw_tree_step)
        (auto simp: coordinates_def split: option.splits)
  next
    case False
    let ?sx = "x - int (length cs) * x_spacing g1 div 2"
    from TreeNode.prems(1) False
    obtain s1 u1 p1 where k1: "draw_children g1 cs x y ?sx [] = (Inr u1, p1)"
      and o1: "o1 = s1 # create_text x y n # p1" and w1: "w1 = int (length cs) * x_spacing g1"
      and s1: "map_canvas_item (\<lambda>h. ()) s1 =
        (case truthy_image i of None \<Rightarrow> create_rectangle (x - 40) (y - 30) (x + 40) (y + 30)
         | Some s \<Rightarrow> create_image x y ())"
      by (subst (asm) draw_tree_step) (auto split: option.splits prod.splits sum.splits)
    from TreeNode.prems(2) False
    obtain s2 u2 p2 where k2: "draw_children g2 cs x y ?sx [] = (Inr u2, p2)"
      and o2: "o2 = s2 # create_text x y n # p2" and w2: "w2 = int (length cs) * x_spacing g1"
      and s2: "map_canvas_item (\<lambda>h. ()) s2 =
        (case truthy_image i of None \<Rightarrow> create_rectangle (x - 40) (y - 30) (x + 40) (y + 30)
         | Some s \<Rightarrow> create_image x y ())"
      unfolding assms(1)
      by (subst (asm) draw_tree_step) (auto split: option.splits prod.splits sum.splits)
    from kids [OF k1 k2] s1 s2 show ?thesis
      unfolding o1 o2 w1 w2 by (simp add: coordinates_def)
  qed
qed

lemma decode_in_order_dom:
  "fst (decode_in_order decode ids pre) = Inr u \<Longrightarrow>
   dom pre \<union> set ids \<subseteq> dom (snd (decode_in_order decode ids pre))"
proof (induction ids arbitrary: pre)
  case Nil
  show ?case by simp
next
  case (Cons a ids)
  from Cons.prems obtain h where a: "decode a = Inr h"
    by (cases "decode a") simp_all
  with Cons.prems have "fst (decode_in_order decode ids (pre(a \<mapsto> h))) = Inr u" by simp
  from Cons.IH [OF this]
  have sub: "dom (pre(a \<mapsto> h)) \<union> set ids \<subseteq> dom (snd (decode_in_order decode ids (pre(a \<mapsto> h))))" .
  have "dom pre \<union> set (a # ids) \<subseteq> dom (pre(a \<mapsto> h)) \<union> set ids" by auto
  with sub have "dom pre \<union> set (a # ids) \<subseteq> dom (snd (decode_in_order decode ids (pre(a \<mapsto> h))))"
    by blast
  moreover have "decode_in_order decode (a # ids) pre = decode_in_order decode ids (pre(a \<mapsto> h))"
    by (simp add: a)
  ultimately show ?case by (simp only:)
qed

lemma TreeGraph_init_Inr:
  assumes "TreeGraph_init decode t = Inr g"
  shows "data g = t" and "canvas g = [create_window 0 0]" and "canvas_width g = 800"
    and "set (image_ids t) \<subseteq> dom (preloaded_images g)"
proof -
  obtain r m where p: "preload_images decode t Map.empty = (r, m)"
    by (cases "preload_images decode t Map.empty")
  with assms obtain u where r: "r = Inr u"
    by (cases r) (simp_all add: TreeGraph_init_def calculate_node_spacing_footprint Let_def)
  from assms p r show "data g = t" and "canvas g = [create_window 0 0]" and "canvas_width g = 800"
    by (auto simp: TreeGraph_init_def calculate_node_spacing_footprint Let_def)
  from assms p r have m: "preloaded_images g = m"
    by (auto simp: TreeGraph_init_def calculate_node_spacing_footprint Let_def)
  from p r have "fst (decode_in_order decode (image_ids t) Map.empty) = Inr u"
    and "snd (decode_in_order decode (image_ids t) Map.empty) = m"
    by (simp_all add: preload_is_decode_in_order)
  with decode_in_order_dom [of decode "image_ids t" Map.empty u] m
  show "set (image_ids t) \<subseteq> dom (preloaded_images g)" by simp
qed

lemma node_depths_names: "map fst (node_depths t) = map name (nodes t)"
  by (induction t) (simp add: map_concat comp_def split_def cong: map_cong)

section \<open>The claims about the drawing\<close>

text \<open>
  C5. When the graph object has been built for a tree, displaying it succeeds and puts on
  the canvas exactly one shape (an image or a rectangle) and one label for every node of
  the tree; the labels are the names of the nodes, each once, in pre-order.
\<close>

theorem display_draws_every_node_once:
  assumes "TreeGraph_init decode t = Inr g"
  shows "\<exists>g'. display_tree g = (Inr (), g') \<and>
    length (filter is_shape (canvas g')) = count_nodes t \<and>
    length (filter is_label (canvas g')) = count_nodes t \<and>
    map fst (label_rows (canvas g')) = map name (nodes t)"
proof -
  note init = TreeGraph_init_Inr [OF assms]
  from draw_tree_counts [OF init(4), of "canvas_width g div 2" 30]
  obtain w o1 where d: "draw_tree g t (canvas_width g div 2) 30 [] = (Inr w, o1)"
    and shapes: "length (filter is_shape o1) = count_nodes t"
    and labels: "length (filter is_label o1) = count_nodes t"
    by blast
  from draw_tree_rows [OF d] have "map fst (label_rows o1) = map fst (node_depths t)"
    by (simp add: comp_def split_def)
  then have names: "map fst (label_rows o1) = map name (nodes t)"
    by (simp only: node_depths_names)
  have run: "draw_tree g (data g) (canvas_width g div 2) 30 (canvas g) =
      (Inr w, create_window 0 0 # o1)"
    by (subst draw_tree_canvas) (simp add: init(1,2) d)
  have "display_tree g = (Inr (), g\<lparr>canvas := create_window 0 0 # o1,
      scrollregion := Some ((- w) div 2, - 30, w div 2, canvas_height g)\<rparr>)"
    by (simp add: display_tree_def run)
  with shapes labels names show ?thesis
    by (simp add: label_rows_def)
qed

theorem display_draws_every_node_once_witness:
  "\<exists>g. TreeGraph_init (\<lambda>s. Inr ()) example_tree = Inr g \<and>
     fst (display_tree g) = Inr () \<and>
     length (filter is_shape (canvas (snd (display_tree g)))) = 6 \<and>
     length (filter is_label (canvas (snd (display_tree g)))) = 6 \<and>
     map fst (label_rows (canvas (snd (display_tree g)))) =
       [[], ''Hello'', ''World'', ''Not'', ''goodbye'', ''world'']"
proof -
  have "\<exists>g. TreeGraph_init (\<lambda>s. Inr ()) example_tree = Inr g"
    by (simp add: TreeGraph_init_def calculate_node_spacing_def py_floordiv_def py_max_def
        example_tree_def)
  then obtain g where h: "TreeGraph_init (\<lambda>s. Inr ()) example_tree = Inr g" ..
  from display_draws_every_node_once [OF h]
  obtain g' where "display_tree g = (Inr (), g')"
    and "length (filter is_shape (canvas g')) = count_nodes example_tree"
    and "length (filter is_label (canvas g')) = count_nodes example_tree"
    and "map fst (label_rows (canvas g')) = map name (nodes example_tree)"
    by blast
  with h show ?thesis by (auto simp: example_tree_def)
qed

text \<open>
  C10. When displaying a graph succeeds, the label of a node at depth \<open>k\<close> (the root
  at depth 0) is at y = 30 + k * y_spacing, wherever the node is placed horizontally.
\<close>

theorem display_tree_y_by_depth:
  assumes "display_tree g = (Inr u, g')"
  shows "label_rows (drop (length (canvas g)) (canvas g')) =
    map (\<lambda>(m, k). (m, 30 + int k * y_spacing g)) (node_depths (data g))"
proof -
  obtain r o1 where d: "draw_tree g (data g) (canvas_width g div 2) 30 [] = (r, o1)"
    by (cases "draw_tree g (data g) (canvas_width g div 2) 30 []")
  have run: "draw_tree g (data g) (canvas_width g div 2) 30 (canvas g) = (r, canvas g @ o1)"
    by (subst draw_tree_canvas) (simp add: d)
  from assms run obtain w where r: "r = Inr w" and g': "canvas g' = canvas g @ o1"
    by (cases r) (auto simp: display_tree_def)
  from draw_tree_rows [OF d [unfolded r]] g' show ?thesis by simp
qed

theorem display_tree_y_by_depth_witness:
  "fst (display_tree hello_world_graph) = Inr () \<and>
   label_rows (drop (length (canvas hello_world_graph)) (canvas (snd (display_tree hello_world_graph)))) =
     [(''root'', 30), (''Hello'', 230), (''World'', 230)] \<and>
   node_depths (data hello_world_graph) = [(''root'', 0), (''Hello'', 1), (''World'', 1)] \<and>
   y_spacing hello_world_graph = 200"
proof -
  obtain g' where h: "display_tree hello_world_graph = (Inr (), g')"
    by (simp add: display_tree_def hello_world_graph_def hello_world_tree_def
        node_width_def node_height_def)
  from display_tree_y_by_depth [OF h] h show ?thesis
    by (simp add: hello_world_graph_def hello_world_tree_def)
qed

text \<open>
  C8. The coordinates that \<open>draw_tree\<close> produces are a function of the tree, the
  start position and the spacing. Called again on the same graph object, whatever the
  canvas already holds, it returns the same result and draws the same items; and two
  graph objects with the same spacing, when both draw the tree without error, return the
  same width and draw items with the same coordinates (\<open>coordinates\<close> forgets the image
  handles, which come from the dictionary of preloaded images).
\<close>

theorem layout_deterministic:
  assumes "x_spacing g1 = x_spacing g2" and "y_spacing g1 = y_spacing g2"
    and "draw_tree g1 t x y cv1 = (r1, cv1')" and "draw_tree g2 t x y cv2 = (r2, cv2')"
  shows "(g1 = g2 \<longrightarrow> r1 = r2 \<and> drop (length cv1) cv1' = drop (length cv2) cv2') \<and>
    (\<forall>w1 w2. r1 = Inr w1 \<and> r2 = Inr w2 \<longrightarrow>
       w1 = w2 \<and> coordinates (drop (length cv1) cv1') = coordinates (drop (length cv2) cv2'))"
proof -
  obtain o1 where d1: "draw_tree g1 t x y [] = (r1, o1)" and c1: "cv1' = cv1 @ o1"
    using assms(3) by (subst (asm) draw_tree_canvas) (auto simp: prod_eq_iff)
  obtain o2 where d2: "draw_tree g2 t x y [] = (r2, o2)" and c2: "cv2' = cv2 @ o2"
    using assms(4) by (subst (asm) draw_tree_canvas) (auto simp: prod_eq_iff)
  have "r1 = r2 \<and> o1 = o2" if "g1 = g2"
    using d1 d2 that by simp
  moreover have "w1 = w2 \<and> coordinates o1 = coordinates o2"
    if r: "r1 = Inr w1" "r2 = Inr w2" for w1 w2
    using draw_tree_same [OF assms(1,2) d1 [unfolded r] d2 [unfolded r]] .
  ultimately show ?thesis by (simp add: c1 c2)
qed

theorem layout_deterministic_witness:
  "draw_tree hello_world_graph hello_world_tree 400 30 [] =
     (Inr 800,
      [create_rectangle 360 0 440 60, create_text 400 30 ''root'',
       create_line 400 60 200 200,
       create_rectangle 160 200 240 260, create_text 200 230 ''Hello'',
       create_line 400 60 280 200,
       create_rectangle 240 200 320 260, create_text 280 230 ''World'']) \<and>
   fst (draw_tree hello_world_graph hello_world_tree 400 30 [create_window 0 0]) = Inr 800 \<and>
   drop 1 (snd (draw_tree hello_world_graph hello_world_tree 400 30 [create_window 0 0])) =
     snd (draw_tree hello_world_graph hello_world_tree 400 30 [])"
proof -
  have a: "draw_tree hello_world_graph hello_world_tree 400 30 [] =
     (Inr 800,
      [create_rectangle 360 0 440 60, create_text 400 30 ''root'',
       create_line 400 60 200 200,
       create_rectangle 160 200 240 260, create_text 200 230 ''Hello'',
       create_line 400 60 280 200,
       create_rectangle 240 200 320 260, create_text 280 230 ''World''])"
    by (simp add: hello_world_graph_def hello_world_tree_def node_width_def node_height_def)
  obtain r cv' where b: "draw_tree hello_world_graph hello_world_tree 400 30 [create_window 0 0] = (r, cv')"
    by (cases "draw_tree hello_world_graph hello_world_tree 400 30 [create_window 0 0]")
  from layout_deterministic [OF refl refl a b] a b show ?thesis by simp
qed

end
